theory Spec2Isabelle
  imports Complex_Main
begin

section \<open>The segmentation page (app.py) as a state transformer\<close>

text \<open>
  app.py is a Streamlit script: the framework executes it from top to bottom once per
  user event and once per \<^verbatim>\<open>st.rerun()\<close>. What survives from one execution to the next
  is the dictionary \<^verbatim>\<open>st.session_state\<close>. One execution is modelled as a function from
  the dictionary it finds and the values the input widgets return to the dictionary it
  leaves, the list of calls it made to the page and to the model, and the way it ended.

  The libraries the script calls (PIL, NumPy, Ultralytics) are not part of it; their
  operations are the fields of the record \<open>extern\<close>, left uninterpreted. A call that can
  raise returns a sum, \<open>Inl\<close> carrying the exception.
\<close>

subsection \<open>Values\<close>

type_synonym point = "int \<times> int"

datatype exn = AttributeError | TypeError | IndexError | LibraryError string

text \<open>
  The values the script stores in \<^verbatim>\<open>st.session_state\<close>: a list of \<^verbatim>\<open>[x, y]\<close> pairs,
  a file name or \<^verbatim>\<open>None\<close>, an image or \<^verbatim>\<open>None\<close>, a boolean, an integer.
\<close>

datatype 'img sval =
    Points "point list"
  | Name "string option"
  | Img "'img option"
  | Flag bool
  | Counter int

type_synonym 'img session_state = "string \<Rightarrow> 'img sval option"

text \<open>
  Reading \<^verbatim>\<open>st.session_state.k\<close> for a key that is absent raises AttributeError. Python
  itself puts no type on what a key holds; where the script applies to a stored value
  an operation that only the expected kind of value has (\<^verbatim>\<open>in\<close> and \<^verbatim>\<open>append\<close> on the
  list, \<^verbatim>\<open>+= 1\<close> on the counter, \<^verbatim>\<open>st.image\<close> on the result), the model ends the execution
  with TypeError for a value of another kind. Comparison with \<^verbatim>\<open>!=\<close>, the test
  \<^verbatim>\<open>is not None\<close> and truth values are defined for every value, as in Python. The
  script itself never stores a value of another kind under one of its keys
  (\<open>run_session_ready\<close> below), so these branches are not taken in a session.
\<close>

text \<open>Python's truth value of a stored object, as \<^verbatim>\<open>if x:\<close> and \<^verbatim>\<open>x and ...\<close> take it.\<close>

fun truthy :: "'img sval \<Rightarrow> bool" where
  "truthy (Points ps) = (ps \<noteq> [])"
| "truthy (Name None) = False"
| "truthy (Name (Some s)) = (s \<noteq> [])"
| "truthy (Img None) = False"
| "truthy (Img (Some im)) = True"
| "truthy (Flag b) = b"
| "truthy (Counter n) = (n \<noteq> 0)"

text \<open>\<^verbatim>\<open>x is None\<close>.\<close>

fun is_None :: "'img sval \<Rightarrow> bool" where
  "is_None (Name None) = True"
| "is_None (Img None) = True"
| "is_None v = False"

subsection \<open>The outside world\<close>

text \<open>
  The file object the uploader returns, and what the four input widgets return in one
  execution: the uploader, the clickable image (\<^verbatim>\<open>None\<close> or the dictionary with the
  keys x and y), and the two buttons.
\<close>

record 'bytes uploaded =
  name :: string
  content :: 'bytes

record 'bytes inputs =
  uploaded_file :: "'bytes uploaded option"
  coords_value :: "point option"
  reset_button :: bool
  run_button :: bool

text \<open>
  What the model returns: a list of results; each has \<^verbatim>\<open>masks\<close>, which is \<^verbatim>\<open>None\<close> or an
  object with its own truth value and a field \<^verbatim>\<open>data\<close>, \<^verbatim>\<open>None\<close> or a stack of masks.
\<close>

record 'arr masks_obj =
  masks_bool :: bool
  data :: "'arr list option"

record 'arr result =
  masks :: "'arr masks_obj option"

type_synonym 'arr predictor = "'arr \<Rightarrow> point list \<Rightarrow> real list \<Rightarrow> exn + 'arr result list"

record ('bytes, 'img, 'arr) extern =
  SAM :: "string \<Rightarrow> exn + 'arr predictor"
  Image_open :: "'bytes \<Rightarrow> exn + 'img"
  convert :: "'img \<Rightarrow> string \<Rightarrow> 'img"
  np_array :: "'img \<Rightarrow> 'arr"
  image_size :: "'img \<Rightarrow> nat \<times> nat"
  Image_new :: "string \<Rightarrow> nat \<times> nat \<Rightarrow> 'img"
  cpu_numpy :: "'arr \<Rightarrow> 'arr"
  Image_fromarray :: "'arr \<Rightarrow> exn + 'img"
  paste :: "'img \<Rightarrow> 'img \<Rightarrow> 'img \<Rightarrow> exn + 'img"
  save :: "'img \<Rightarrow> string \<Rightarrow> 'bytes"

text \<open>
  The fixed texts of the page, by what they say; the two that embed an exception carry
  it. The calls the script makes to the page and to the model are the events of an
  execution; \<open>St_info_selected\<close> is the \<^verbatim>\<open>st.info\<close> that prints the stored points, and
  \<open>St_image_coordinates\<close> carries the image and the two parts of the widget's key.
\<close>

datatype msg =
    Model_loaded
  | Model_load_failed exn
  | Check_pip_install
  | Page_title
  | Usage
  | Preview_heading
  | Click_prompt
  | Upload_prompt
  | No_mask_found
  | Segmentation_failed exn
  | Check_points_and_image
  | Memory_hint
  | Segmenting
  | Result_heading

datatype ('bytes, 'img, 'arr) event =
    St_success msg
  | St_error msg
  | St_warning msg
  | St_info msg
  | St_info_selected "'img sval"
  | St_set_page_config
  | St_title msg
  | St_markdown msg
  | St_subheader msg
  | St_image_coordinates 'img string "'img sval"
  | St_spinner msg
  | Predictor_call 'arr "point list" "real list"
  | St_image 'img
  | St_download_button 'bytes string string

text \<open>
  How a part of the script ends: it falls through to the next statement, it calls
  \<^verbatim>\<open>st.rerun()\<close>, it calls \<^verbatim>\<open>st.stop()\<close>, or an exception escapes.
\<close>

datatype outcome = Completed | Rerun | Stopped | Crashed exn

type_synonym ('bytes, 'img, 'arr) run =
  "'img session_state \<times> ('bytes, 'img, 'arr) event list \<times> outcome"

definition and_then ::
  "('bytes, 'img, 'arr) run \<Rightarrow> ('img session_state \<Rightarrow> ('bytes, 'img, 'arr) run)
    \<Rightarrow> ('bytes, 'img, 'arr) run" where
  "and_then r f =
    (case r of
       (ss, evs, Completed) \<Rightarrow> (case f ss of (ss', evs', oc) \<Rightarrow> (ss', evs @ evs', oc))
     | (ss, evs, oc) \<Rightarrow> (ss, evs, oc))"

subsection \<open>Lines 16 to 37: loading the model\<close>

text \<open>
  \<^verbatim>\<open>load_sam_model\<close> returns the model, or reports the exception and calls \<^verbatim>\<open>st.stop()\<close>;
  \<open>None\<close> stands for the second case. The function is cached by the framework, which
  repeats its \<^verbatim>\<open>st.success\<close> in every execution that finds the model loaded.
\<close>

definition load_sam_model ::
  "('bytes, 'img, 'arr) extern \<Rightarrow> ('bytes, 'img, 'arr) event list \<times> 'arr predictor option" where
  "load_sam_model ext =
    (case SAM ext ''sam2.1_b.pt'' of
       Inr model \<Rightarrow> ([St_success Model_loaded], Some model)
     | Inl e \<Rightarrow> ([St_error (Model_load_failed e), St_error Check_pip_install], None))"

subsection \<open>Lines 62 to 75: the keys of the session\<close>

text \<open>
  Each of the five statements has the form
  \<^verbatim>\<open>if "k" not in st.session_state: st.session_state.k = v\<close>.
\<close>

definition init_key :: "string \<Rightarrow> 'img sval \<Rightarrow> 'img session_state \<Rightarrow> 'img session_state" where
  "init_key k v ss = (if ss k = None then ss(k \<mapsto> v) else ss)"

definition init_session_state :: "'img session_state \<Rightarrow> 'img session_state" where
  "init_session_state ss =
    init_key ''reset_counter'' (Counter 0)
      (init_key ''is_processing'' (Flag False)
        (init_key ''segmented_image_rgba'' (Img None)
          (init_key ''image_uploaded_name'' (Name None)
            (init_key ''points'' (Points []) ss))))"

subsection \<open>Lines 83 to 91: a new upload\<close>

definition new_upload_reset ::
  "'bytes inputs \<Rightarrow> 'img session_state \<Rightarrow> ('bytes, 'img, 'arr) run" where
  "new_upload_reset inp ss =
    (case uploaded_file inp of
       None \<Rightarrow> (ss, [], Completed)
     | Some f \<Rightarrow>
        (case ss ''image_uploaded_name'' of
           None \<Rightarrow> (ss, [], Crashed AttributeError)
         | Some v \<Rightarrow>
            if v \<noteq> Name (Some (name f))
            then (ss(''points'' \<mapsto> Points [],
                     ''segmented_image_rgba'' \<mapsto> Img None,
                     ''image_uploaded_name'' \<mapsto> Name (Some (name f)),
                     ''is_processing'' \<mapsto> Flag False,
                     ''reset_counter'' \<mapsto> Counter 0), [], Completed)
            else (ss, [], Completed)))"

subsection \<open>Lines 111 to 122: a click on the image\<close>

definition click_handler ::
  "'bytes inputs \<Rightarrow> 'img session_state \<Rightarrow> ('bytes, 'img, 'arr) run" where
  "click_handler inp ss =
    (case coords_value inp of
       None \<Rightarrow> (ss, [], Completed)
     | Some (new_x, new_y) \<Rightarrow>
        (case ss ''points'' of
           None \<Rightarrow> (ss, [], Crashed AttributeError)
         | Some (Points ps) \<Rightarrow>
            if (new_x, new_y) \<notin> set ps
            then (ss(''points'' \<mapsto> Points (ps @ [(new_x, new_y)]),
                     ''segmented_image_rgba'' \<mapsto> Img None,
                     ''is_processing'' \<mapsto> Flag False), [], Rerun)
            else (ss, [], Completed)
         | Some _ \<Rightarrow> (ss, [], Crashed TypeError)))"

subsection \<open>Lines 125 to 155: the selected points and the two buttons\<close>

text \<open>
  \<^verbatim>\<open>reset_counter += 1\<close>: a Python boolean is an integer, everything else the script
  stores has no addition with 1.
\<close>

fun plus_one :: "'img sval \<Rightarrow> exn + 'img sval" where
  "plus_one (Counter n) = Inr (Counter (n + 1))"
| "plus_one (Flag b) = Inr (Counter (of_bool b + 1))"
| "plus_one v = Inl TypeError"

definition reset_pressed :: "'img session_state \<Rightarrow> ('bytes, 'img, 'arr) run" where
  "reset_pressed ss =
    (let ss' = ss(''points'' \<mapsto> Points [],
                  ''segmented_image_rgba'' \<mapsto> Img None,
                  ''is_processing'' \<mapsto> Flag False)
     in case ss' ''reset_counter'' of
          None \<Rightarrow> (ss', [], Crashed AttributeError)
        | Some c \<Rightarrow>
           (case plus_one c of
              Inl e \<Rightarrow> (ss', [], Crashed e)
            | Inr c' \<Rightarrow> (ss'(''reset_counter'' \<mapsto> c'), [], Rerun)))"

definition run_pressed :: "'img session_state \<Rightarrow> ('bytes, 'img, 'arr) run" where
  "run_pressed ss =
    (ss(''is_processing'' \<mapsto> Flag True, ''segmented_image_rgba'' \<mapsto> Img None), [], Rerun)"

definition points_and_buttons ::
  "'bytes inputs \<Rightarrow> 'img session_state \<Rightarrow> ('bytes, 'img, 'arr) run" where
  "points_and_buttons inp ss =
    (case ss ''points'' of
       None \<Rightarrow> (ss, [], Crashed AttributeError)
     | Some v \<Rightarrow>
        if truthy v
        then and_then (ss, [St_info_selected v], Completed)
               (\<lambda>ss. if reset_button inp then reset_pressed ss
                     else if run_button inp then run_pressed ss
                     else (ss, [], Completed))
        else (ss, [St_info Click_prompt], Completed))"

subsection \<open>Lines 93 to 157: the uploaded image\<close>

text \<open>
  The array \<^verbatim>\<open>image_np\<close> of line 97 is not used before line 161, where it is computed
  again; it is left out here. The widget's key is made of the file name and the counter.
\<close>

definition image_block ::
  "('bytes, 'img, 'arr) extern \<Rightarrow> 'bytes inputs \<Rightarrow> 'img session_state
    \<Rightarrow> ('bytes, 'img, 'arr) run" where
  "image_block ext inp ss =
    (case uploaded_file inp of
       None \<Rightarrow> (ss, [St_info Upload_prompt], Completed)
     | Some f \<Rightarrow>
        (case Image_open ext (content f) of
           Inl e \<Rightarrow> (ss, [], Crashed e)
         | Inr im \<Rightarrow>
            (case ss ''reset_counter'' of
               None \<Rightarrow> (ss, [St_subheader Preview_heading], Crashed AttributeError)
             | Some c \<Rightarrow>
                and_then
                  (and_then
                    (ss, [St_subheader Preview_heading,
                          St_image_coordinates (convert ext im ''RGB'') (name f) c], Completed)
                    (click_handler inp))
                  (points_and_buttons inp))))"

subsection \<open>Lines 161 to 196: the segmentation\<close>

text \<open>
  The test \<^verbatim>\<open>results and results[0].masks and results[0].masks.data is not None\<close>;
  where it holds, the value of \<^verbatim>\<open>results[0].masks.data\<close>.
\<close>

definition masks_data :: "'arr result list \<Rightarrow> 'arr list option" where
  "masks_data results =
    (case results of
       [] \<Rightarrow> None
     | r # _ \<Rightarrow>
        (case masks r of
           None \<Rightarrow> None
         | Some m \<Rightarrow> if masks_bool m then data m else None))"

text \<open>Lines 177 to 180: the first mask, the canvas, the paste.\<close>

definition cut_out ::
  "('bytes, 'img, 'arr) extern \<Rightarrow> 'img \<Rightarrow> 'arr list \<Rightarrow> exn + 'img" where
  "cut_out ext img d =
    (case d of
       [] \<Rightarrow> Inl IndexError
     | t # _ \<Rightarrow>
        (case Image_fromarray ext (cpu_numpy ext t) of
           Inl e \<Rightarrow> Inl e
         | Inr mask_image \<Rightarrow>
            paste ext (Image_new ext ''RGBA'' (image_size ext img)) img mask_image))"

text \<open>
  The body of \<^verbatim>\<open>try\<close>: the session it leaves, the calls it made, and the exception that
  ended it, if one did.
\<close>

definition try_body ::
  "('bytes, 'img, 'arr) extern \<Rightarrow> 'arr predictor \<Rightarrow> 'img \<Rightarrow> 'img session_state
    \<Rightarrow> 'img session_state \<times> ('bytes, 'img, 'arr) event list \<times> exn option" where
  "try_body ext predictor img ss =
    (case ss ''points'' of
       None \<Rightarrow> (ss, [], Some AttributeError)
     | Some (Points ps) \<Rightarrow>
        (let input_points = ps;
             input_labels = replicate (length ps) (1::real);
             call = Predictor_call (np_array ext img) input_points input_labels
         in case predictor (np_array ext img) input_points input_labels of
              Inl e \<Rightarrow> (ss, [call], Some e)
            | Inr results \<Rightarrow>
               (case masks_data results of
                  Some d \<Rightarrow>
                    (case cut_out ext img d of
                       Inl e \<Rightarrow> (ss, [call], Some e)
                     | Inr segmented \<Rightarrow>
                        (ss(''segmented_image_rgba'' \<mapsto> Img (Some segmented)), [call], None))
                | None \<Rightarrow>
                    (ss(''segmented_image_rgba'' \<mapsto> Img None),
                     [call, St_warning No_mask_found], None)))
     | Some _ \<Rightarrow> (ss, [], Some TypeError))"

definition segmentation ::
  "('bytes, 'img, 'arr) extern \<Rightarrow> 'arr predictor \<Rightarrow> 'bytes inputs \<Rightarrow> 'img session_state
    \<Rightarrow> ('bytes, 'img, 'arr) run" where
  "segmentation ext predictor inp ss =
    (case ss ''is_processing'' of
       None \<Rightarrow> (ss, [], Crashed AttributeError)
     | Some p \<Rightarrow>
        if truthy p
        then (case uploaded_file inp of
                None \<Rightarrow> (ss, [], Completed)
              | Some f \<Rightarrow>
                 (case Image_open ext (content f) of
                    Inl e \<Rightarrow> (ss, [], Crashed e)
                  | Inr im \<Rightarrow>
                     (case try_body ext predictor (convert ext im ''RGB'') ss of
                        (ss', evs, None) \<Rightarrow>
                          (ss'(''is_processing'' \<mapsto> Flag False),
                           St_spinner Segmenting # evs, Rerun)
                      | (ss', evs, Some e) \<Rightarrow>
                          (ss'(''is_processing'' \<mapsto> Flag False),
                           St_spinner Segmenting # evs
                             @ [St_error (Segmentation_failed e),
                                St_error Check_points_and_image,
                                St_warning Memory_hint], Rerun))))
        else (ss, [], Completed))"

subsection \<open>Lines 199 to 217: the result and its download\<close>

text \<open>\<^verbatim>\<open>s.split('.')[0]\<close>: the text before the first dot.\<close>

definition split_dot_first :: "string \<Rightarrow> string" where
  "split_dot_first s = takeWhile (\<lambda>c. c \<noteq> CHR ''.'') s"

definition show_result ::
  "('bytes, 'img, 'arr) extern \<Rightarrow> 'bytes inputs \<Rightarrow> 'img session_state
    \<Rightarrow> ('bytes, 'img, 'arr) run" where
  "show_result ext inp ss =
    (case ss ''segmented_image_rgba'' of
       None \<Rightarrow> (ss, [], Crashed AttributeError)
     | Some v \<Rightarrow>
        if is_None v then (ss, [], Completed)
        else (case v of
                Img (Some segmented) \<Rightarrow>
                  (case uploaded_file inp of
                     None \<Rightarrow>
                       (ss, [St_subheader Result_heading, St_image segmented],
                        Crashed AttributeError)
                   | Some f \<Rightarrow>
                       (ss, [St_subheader Result_heading, St_image segmented,
                             St_download_button (save ext segmented ''PNG'')
                               (''segmented_'' @ split_dot_first (name f) @ ''.png'')
                               ''image/png''], Completed))
              | _ \<Rightarrow> (ss, [St_subheader Result_heading], Crashed TypeError)))"

subsection \<open>One execution of the script\<close>

definition page_body ::
  "('bytes, 'img, 'arr) extern \<Rightarrow> 'arr predictor \<Rightarrow> 'bytes inputs \<Rightarrow> 'img session_state
    \<Rightarrow> ('bytes, 'img, 'arr) run" where
  "page_body ext predictor inp ss =
    and_then (and_then (image_block ext inp ss) (segmentation ext predictor inp))
      (show_result ext inp)"

definition page_head :: "('bytes, 'img, 'arr) event list" where
  "page_head = [St_set_page_config, St_title Page_title, St_markdown Usage]"

definition script ::
  "('bytes, 'img, 'arr) extern \<Rightarrow> 'bytes inputs \<Rightarrow> 'img session_state
    \<Rightarrow> ('bytes, 'img, 'arr) run" where
  "script ext inp ss =
    (case load_sam_model ext of
       (evs, None) \<Rightarrow> (ss, evs, Stopped)
     | (evs, Some predictor) \<Rightarrow>
        and_then
          (and_then (init_session_state ss, evs @ page_head, Completed)
            (new_upload_reset inp))
          (page_body ext predictor inp))"

text \<open>
  A session: the script executed once per step, each execution with its own inputs and
  its own outside world, starting from the empty dictionary of a new browser session.
\<close>

definition run_session ::
  "(('bytes, 'img, 'arr) extern \<times> 'bytes inputs) list \<Rightarrow> 'img session_state" where
  "run_session steps = foldl (\<lambda>ss (ext, inp). fst (script ext inp ss)) Map.empty steps"

subsection \<open>The session between executions\<close>

text \<open>
  A session is ready when the five keys of lines 62 to 75 are present and hold values of
  the kinds the script stores, the points are pairwise different, and a raised
  processing flag comes with an empty result.
\<close>

definition ready :: "'img session_state \<Rightarrow> bool" where
  "ready ss =
    ((case ss ''points'' of Some (Points ps) \<Rightarrow> distinct ps | _ \<Rightarrow> False) \<and>
     (case ss ''image_uploaded_name'' of Some (Name n) \<Rightarrow> True | _ \<Rightarrow> False) \<and>
     (case ss ''segmented_image_rgba'' of Some (Img i) \<Rightarrow> True | _ \<Rightarrow> False) \<and>
     (case ss ''is_processing'' of
        Some (Flag b) \<Rightarrow> b \<longrightarrow> ss ''segmented_image_rgba'' = Some (Img None)
      | _ \<Rightarrow> False) \<and>
     (case ss ''reset_counter'' of Some (Counter c) \<Rightarrow> True | _ \<Rightarrow> False))"

definition session_keys :: "string set" where
  "session_keys =
    {''points'', ''image_uploaded_name'', ''segmented_image_rgba'', ''is_processing'',
     ''reset_counter''}"

text \<open>
  The inputs of an execution that only draws the page again, such as the one that
  follows \<^verbatim>\<open>st.rerun()\<close>: the file shown before is still in the uploader, the clickable
  image returns nothing or a point that is already stored, and no button is pressed.
\<close>

definition quiet :: "'bytes inputs \<Rightarrow> 'bytes uploaded \<Rightarrow> 'img session_state \<Rightarrow> bool" where
  "quiet inp f ss =
    (uploaded_file inp = Some f \<and>
     ss ''image_uploaded_name'' = Some (Name (Some (name f))) \<and>
     (case coords_value inp of
        None \<Rightarrow> True
      | Some p \<Rightarrow> (case ss ''points'' of Some (Points ps) \<Rightarrow> p \<in> set ps | _ \<Rightarrow> False)) \<and>
     \<not> reset_button inp \<and> \<not> run_button inp)"

text \<open>The calls to the model among the events of an execution.\<close>

fun is_predictor_call :: "('bytes, 'img, 'arr) event \<Rightarrow> bool" where
  "is_predictor_call (Predictor_call a ps ls) = True"
| "is_predictor_call ev = False"

text \<open>The image shown and the download offered among the events of an execution.\<close>

fun is_st_image :: "('bytes, 'img, 'arr) event \<Rightarrow> bool" where
  "is_st_image (St_image r) = True"
| "is_st_image ev = False"

fun is_download_button :: "('bytes, 'img, 'arr) event \<Rightarrow> bool" where
  "is_download_button (St_download_button d n m) = True"
| "is_download_button ev = False"

text \<open>
  The events that only the segmentation of lines 161 to 196 produces: the spinner, the
  call to the model and the report of an exception. Every other event is calm.
\<close>

fun calm :: "('bytes, 'img, 'arr) event \<Rightarrow> bool" where
  "calm (St_spinner m) = False"
| "calm (Predictor_call a ps ls) = False"
| "calm (St_error (Segmentation_failed e)) = False"
| "calm ev = True"

text \<open>What \<^verbatim>\<open>except\<close> writes to the page for the exception it caught.\<close>

definition reported :: "exn option \<Rightarrow> ('bytes, 'img, 'arr) event list" where
  "reported x =
    (case x of
       None \<Rightarrow> []
     | Some e \<Rightarrow>
        [St_error (Segmentation_failed e), St_error Check_points_and_image,
         St_warning Memory_hint])"

subsection \<open>A small outside world for concrete executions\<close>

definition demo_predictor :: "string predictor" where
  "demo_predictor a ps ls =
    Inr [\<lparr>masks = Some \<lparr>masks_bool = True, data = Some [''m0'', ''m1'']\<rparr>\<rparr>]"

definition demo_ext :: "(string, string, string) extern" where
  "demo_ext =
    \<lparr>SAM = (\<lambda>w. Inr demo_predictor),
     Image_open = (\<lambda>b. Inr b),
     convert = (\<lambda>im mode. im @ '':'' @ mode),
     np_array = (\<lambda>im. ''np('' @ im @ '')''),
     image_size = (\<lambda>im. (4, 3)),
     Image_new = (\<lambda>mode sz. mode),
     cpu_numpy = (\<lambda>t. t),
     Image_fromarray = (\<lambda>a. Inr a),
     paste = (\<lambda>canvas im mask. Inr (canvas @ ''+'' @ im @ ''/'' @ mask)),
     save = (\<lambda>im fmt. fmt @ ''<'' @ im @ ''>'')\<rparr>"

definition failing_ext :: "(string, string, string) extern" where
  "failing_ext = demo_ext\<lparr>SAM := (\<lambda>w. Inr (\<lambda>a ps ls. Inl (LibraryError ''out of memory'')))\<rparr>"

definition demo_file :: "string uploaded" where
  "demo_file = \<lparr>name = ''cat.photo.jpg'', content = ''bytes''\<rparr>"

definition demo_session :: "point list \<Rightarrow> string option \<Rightarrow> bool \<Rightarrow> string session_state" where
  "demo_session ps r b =
    [''points'' \<mapsto> Points ps,
     ''image_uploaded_name'' \<mapsto> Name (Some ''cat.photo.jpg''),
     ''segmented_image_rgba'' \<mapsto> Img r,
     ''is_processing'' \<mapsto> Flag b,
     ''reset_counter'' \<mapsto> Counter 0]"

definition demo_inputs :: "point option \<Rightarrow> bool \<Rightarrow> bool \<Rightarrow> string inputs" where
  "demo_inputs c r g =
    \<lparr>uploaded_file = Some demo_file, coords_value = c, reset_button = r, run_button = g\<rparr>"

section \<open>Properties\<close>

subsection \<open>Sequencing\<close>

lemma and_then_Completed:
  "and_then (ss, evs, Completed) f = (case f ss of (ss', evs', oc) \<Rightarrow> (ss', evs @ evs', oc))"
  by (simp add: and_then_def)

lemma and_then_other: "oc \<noteq> Completed \<Longrightarrow> and_then (ss, evs, oc) f = (ss, evs, oc)"
  by (cases oc) (simp_all add: and_then_def)

lemma fst_and_then:
  assumes "P (fst r)" and "\<And>ss. P ss \<Longrightarrow> P (fst (f ss))"
  shows "P (fst (and_then r f))"
proof -
  obtain ss evs oc where r: "r = (ss, evs, oc)" by (cases r)
  show ?thesis
  proof (cases "oc = Completed")
    case True
    obtain ss' evs' oc' where f: "f ss = (ss', evs', oc')" by (cases "f ss")
    from assms(2)[of ss] assms(1) r f have "P ss'" by simp
    with r True f show ?thesis by (simp add: and_then_Completed)
  next
    case False
    with assms(1) r show ?thesis by (simp add: and_then_other)
  qed
qed

subsection \<open>Every section keeps a ready session ready\<close>

lemma readyE:
  assumes "ready ss"
  obtains ps n i b c where
    "ss ''points'' = Some (Points ps)" "distinct ps"
    "ss ''image_uploaded_name'' = Some (Name n)"
    "ss ''segmented_image_rgba'' = Some (Img i)"
    "ss ''is_processing'' = Some (Flag b)" "b \<Longrightarrow> i = None"
    "ss ''reset_counter'' = Some (Counter c)"
  using assms unfolding ready_def
  by (auto split: option.splits sval.splits)

lemma ready_init: "ready ss \<Longrightarrow> init_session_state ss = ss"
  by (erule readyE) (simp add: init_session_state_def init_key_def)

lemma ready_init_empty: "ready (init_session_state Map.empty)"
  by (simp add: init_session_state_def init_key_def ready_def)

lemma ready_new_upload_reset: "ready ss \<Longrightarrow> ready (fst (new_upload_reset inp ss))"
  by (erule readyE) (simp add: new_upload_reset_def ready_def split: option.splits)

lemma ready_click_handler: "ready ss \<Longrightarrow> ready (fst (click_handler inp ss))"
  by (erule readyE) (simp add: click_handler_def ready_def split: option.splits prod.splits)

lemma ready_points_and_buttons: "ready ss \<Longrightarrow> ready (fst (points_and_buttons inp ss))"
  by (erule readyE)
     (simp add: points_and_buttons_def and_then_Completed reset_pressed_def run_pressed_def
        ready_def)

lemma ready_image_block: "ready ss \<Longrightarrow> ready (fst (image_block ext inp ss))"
proof -
  assume r: "ready ss"
  then obtain c where c: "ss ''reset_counter'' = Some c" by (auto elim: readyE)
  show ?thesis
  proof (cases "uploaded_file inp")
    case None
    with r show ?thesis by (simp add: image_block_def)
  next
    case (Some f)
    show ?thesis
    proof (cases "Image_open ext (content f)")
      case (Inl e)
      with r Some show ?thesis by (simp add: image_block_def)
    next
      case (Inr im)
      have "ready (fst (and_then (and_then
              (ss, [St_subheader Preview_heading,
                    St_image_coordinates (convert ext im ''RGB'') (name f) c], Completed)
              (click_handler inp)) (points_and_buttons inp)))"
        by (intro fst_and_then[where P = ready] ready_click_handler ready_points_and_buttons)
           (simp_all add: r)
      with Some Inr c show ?thesis by (simp add: image_block_def)
    qed
  qed
qed

lemma try_body_raised:
  "try_body ext predictor img ss = (s', evs, Some e) \<Longrightarrow> s' = ss"
  by (auto simp: try_body_def Let_def split: option.splits sval.splits sum.splits)

lemma try_body_returned:
  "try_body ext predictor img ss = (s', evs, None) \<Longrightarrow>
    \<exists>r. s' = ss(''segmented_image_rgba'' \<mapsto> Img r)"
  by (auto simp: try_body_def Let_def split: option.splits sval.splits sum.splits)

lemma ready_lowered:
  assumes "ready ss" and "s = ss \<or> (\<exists>r. s = ss(''segmented_image_rgba'' \<mapsto> Img r))"
  shows "ready (s(''is_processing'' \<mapsto> Flag False))"
  using assms by (auto elim!: readyE simp: ready_def)

lemma ready_segmentation: "ready ss \<Longrightarrow> ready (fst (segmentation ext predictor inp ss))"
proof -
  assume r: "ready ss"
  then obtain b where b: "ss ''is_processing'' = Some (Flag b)" by (auto elim: readyE)
  show ?thesis
  proof (cases "b \<and> uploaded_file inp \<noteq> None")
    case False
    with r b show ?thesis by (auto simp: segmentation_def)
  next
    case True
    then obtain f where f: "uploaded_file inp = Some f" by auto
    show ?thesis
    proof (cases "Image_open ext (content f)")
      case (Inl e)
      with r b True f show ?thesis by (simp add: segmentation_def)
    next
      case (Inr im)
      obtain s' evs x where t: "try_body ext predictor (convert ext im ''RGB'') ss = (s', evs, x)"
        by (cases "try_body ext predictor (convert ext im ''RGB'') ss")
      have "s' = ss \<or> (\<exists>r. s' = ss(''segmented_image_rgba'' \<mapsto> Img r))"
      proof (cases x)
        case None
        with t show ?thesis by (auto dest: try_body_returned)
      next
        case (Some e)
        with t show ?thesis by (auto dest: try_body_raised)
      qed
      then have "ready (s'(''is_processing'' \<mapsto> Flag False))"
        using r by (rule ready_lowered[rotated])
      with b True f Inr t show ?thesis
        by (cases x) (simp_all add: segmentation_def)
    qed
  qed
qed

lemma fst_show_result: "fst (show_result ext inp ss) = ss"
  by (simp add: show_result_def split: option.splits sval.splits)

lemma ready_page_body: "ready ss \<Longrightarrow> ready (fst (page_body ext predictor inp ss))"
  unfolding page_body_def
  by (intro fst_and_then[where P = ready] ready_image_block ready_segmentation)
     (simp_all add: fst_show_result)

lemma ready_script: "ready ss \<Longrightarrow> ready (fst (script ext inp ss))"
proof -
  assume r: "ready ss"
  obtain evs m where l: "load_sam_model ext = (evs, m)" by (cases "load_sam_model ext")
  show ?thesis
  proof (cases m)
    case None
    with l r show ?thesis by (simp add: script_def)
  next
    case (Some predictor)
    have "ready (fst (and_then (and_then (init_session_state ss, evs @ page_head, Completed)
            (new_upload_reset inp)) (page_body ext predictor inp)))"
      by (intro fst_and_then[where P = ready] ready_new_upload_reset ready_page_body)
         (simp_all add: r ready_init)
    with l Some show ?thesis by (simp add: script_def)
  qed
qed

lemma script_fresh:
  "fst (script ext inp Map.empty) = Map.empty \<or> ready (fst (script ext inp Map.empty))"
proof -
  obtain evs m where l: "load_sam_model ext = (evs, m)" by (cases "load_sam_model ext")
  show ?thesis
  proof (cases m)
    case None
    with l show ?thesis by (simp add: script_def)
  next
    case (Some predictor)
    have "ready (fst (and_then (and_then (init_session_state Map.empty, evs @ page_head, Completed)
            (new_upload_reset inp)) (page_body ext predictor inp)))"
      by (intro fst_and_then[where P = ready] ready_new_upload_reset ready_page_body)
         (simp_all add: ready_init_empty)
    with l Some show ?thesis by (simp add: script_def)
  qed
qed

lemma run_session_snoc:
  "run_session (steps @ [(ext, inp)]) = fst (script ext inp (run_session steps))"
  by (simp add: run_session_def)

lemma run_session_ready:
  "run_session steps = Map.empty \<or> ready (run_session steps)"
proof (induction steps rule: rev_induct)
  case Nil
  show ?case by (simp add: run_session_def)
next
  case (snoc step steps)
  obtain ext inp where s: "step = (ext, inp)" by (cases step)
  from snoc show ?case
    unfolding s run_session_snoc using script_fresh ready_script by metis
qed

subsection \<open>Executions that only draw the page\<close>

lemma and_then_assoc: "and_then (and_then r f) g = and_then r (\<lambda>s. and_then (f s) g)"
proof -
  obtain ss evs oc where r: "r = (ss, evs, oc)" by (cases r)
  show ?thesis
  proof (cases "oc = Completed")
    case True
    obtain ss' evs' oc' where f: "f ss = (ss', evs', oc')" by (cases "f ss")
    show ?thesis
    proof (cases "oc' = Completed")
      case True
      with r \<open>oc = Completed\<close> f show ?thesis
        by (simp add: and_then_Completed split: prod.splits)
    next
      case False
      with r \<open>oc = Completed\<close> f show ?thesis
        by (simp add: and_then_Completed and_then_other)
    qed
  next
    case False
    with r show ?thesis by (simp add: and_then_other)
  qed
qed

lemma load_ok:
  "SAM ext ''sam2.1_b.pt'' = Inr predictor \<Longrightarrow>
    load_sam_model ext = ([St_success Model_loaded], Some predictor)"
  by (simp add: load_sam_model_def)

lemma script_loaded:
  assumes "SAM ext ''sam2.1_b.pt'' = Inr predictor"
  shows "script ext inp ss =
    and_then (and_then (init_session_state ss, St_success Model_loaded # page_head, Completed)
      (new_upload_reset inp)) (page_body ext predictor inp)"
  by (simp add: script_def load_ok[OF assms])

lemma new_upload_same:
  assumes "uploaded_file inp = Some f"
    and "ss ''image_uploaded_name'' = Some (Name (Some (name f)))"
  shows "new_upload_reset inp ss = (ss, [], Completed)"
  using assms by (simp add: new_upload_reset_def)

lemma click_handler_quiet:
  assumes "ss ''points'' = Some (Points ps)" and "quiet inp f ss"
  shows "click_handler inp ss = (ss, [], Completed)"
  using assms by (auto simp: click_handler_def quiet_def split: option.splits)

lemma points_and_buttons_quiet:
  assumes "ss ''points'' = Some (Points ps)" and "quiet inp f ss"
  shows "points_and_buttons inp ss =
    (ss, [if ps = [] then St_info Click_prompt else St_info_selected (Points ps)], Completed)"
  using assms by (simp add: points_and_buttons_def quiet_def and_then_Completed)

lemma image_block_quiet:
  assumes "ss ''points'' = Some (Points ps)" and "ss ''reset_counter'' = Some c"
    and "quiet inp f ss" and "Image_open ext (content f) = Inr im"
  shows "image_block ext inp ss =
    (ss, [St_subheader Preview_heading,
          St_image_coordinates (convert ext im ''RGB'') (name f) c,
          if ps = [] then St_info Click_prompt else St_info_selected (Points ps)], Completed)"
proof -
  from assms(3) have f: "uploaded_file inp = Some f" by (simp add: quiet_def)
  show ?thesis
    by (simp add: image_block_def f assms(2,4) and_then_Completed
        click_handler_quiet[OF assms(1,3)] points_and_buttons_quiet[OF assms(1,3)])
qed

lemma script_quiet:
  assumes "SAM ext ''sam2.1_b.pt'' = Inr predictor" and "ready ss"
    and "ss ''points'' = Some (Points ps)" and "ss ''reset_counter'' = Some c"
    and "quiet inp f ss" and "Image_open ext (content f) = Inr im"
  shows "script ext inp ss =
    and_then
      (ss, St_success Model_loaded # page_head @
           [St_subheader Preview_heading,
            St_image_coordinates (convert ext im ''RGB'') (name f) c,
            if ps = [] then St_info Click_prompt else St_info_selected (Points ps)],
       Completed)
      (\<lambda>s. and_then (segmentation ext predictor inp s) (show_result ext inp))"
proof -
  from assms(5) have f: "uploaded_file inp = Some f"
    and n: "ss ''image_uploaded_name'' = Some (Name (Some (name f)))"
    by (simp_all add: quiet_def)
  have nu: "new_upload_reset inp ss = (ss, [], Completed)"
    using f n by (rule new_upload_same)
  obtain s' evs' oc where g:
    "and_then (segmentation ext predictor inp ss) (show_result ext inp) = (s', evs', oc)"
    by (cases "and_then (segmentation ext predictor inp ss) (show_result ext inp)")
  have "page_body ext predictor inp ss =
    and_then (image_block ext inp ss)
      (\<lambda>s. and_then (segmentation ext predictor inp s) (show_result ext inp))"
    by (simp add: page_body_def and_then_assoc)
  then show ?thesis
    by (simp add: script_loaded[OF assms(1)] ready_init[OF assms(2)] nu
        and_then_Completed image_block_quiet[OF assms(3,4,5,6)] g)
qed

subsection \<open>The keys of the session\<close>

lemma session_keys_dom:
  "session_keys \<subseteq> dom ss \<longleftrightarrow>
    ss ''points'' \<noteq> None \<and> ss ''image_uploaded_name'' \<noteq> None \<and>
    ss ''segmented_image_rgba'' \<noteq> None \<and> ss ''is_processing'' \<noteq> None \<and>
    ss ''reset_counter'' \<noteq> None"
  by (auto simp: session_keys_def)



lemma dom_upd_present: "k \<in> dom ss \<Longrightarrow> dom (ss(k \<mapsto> v)) = dom ss"
  by auto














subsection \<open>What a session holds\<close>


lemmas demo_defs = demo_ext_def demo_predictor_def demo_file_def demo_session_def
  demo_inputs_def failing_ext_def

lemmas script_defs = script_def load_sam_model_def init_session_state_def init_key_def
  new_upload_reset_def page_body_def image_block_def click_handler_def
  points_and_buttons_def reset_pressed_def run_pressed_def segmentation_def try_body_def
  masks_data_def cut_out_def show_result_def split_dot_first_def and_then_def page_head_def
  run_session_def




subsection \<open>Uploads and clicks\<close>

lemma init_key_present: "init_key k v ss k \<noteq> None"
  by (simp add: init_key_def)

lemma init_key_other: "ss k' \<noteq> None \<Longrightarrow> init_key k v ss k' \<noteq> None"
  by (simp add: init_key_def)

lemma init_name_present: "init_session_state ss ''image_uploaded_name'' \<noteq> None"
  unfolding init_session_state_def
  by (intro init_key_other init_key_present)

text \<open>
  C9. When the uploader holds a file whose name differs from the recorded one, the
  points become the empty list, the result None, the flag False and the counter 0 (and
  the new name is recorded); the rest of the script runs on the session so reset.
\<close>

theorem new_upload_resets_session:
  assumes "SAM ext ''sam2.1_b.pt'' = Inr predictor"
    and "uploaded_file inp = Some f"
    and "init_session_state ss ''image_uploaded_name'' \<noteq> Some (Name (Some (name f)))"
  shows "script ext inp ss =
    and_then
      ((init_session_state ss)
         (''points'' \<mapsto> Points [],
          ''segmented_image_rgba'' \<mapsto> Img None,
          ''image_uploaded_name'' \<mapsto> Name (Some (name f)),
          ''is_processing'' \<mapsto> Flag False,
          ''reset_counter'' \<mapsto> Counter 0),
       St_success Model_loaded # page_head, Completed)
      (page_body ext predictor inp)"
proof -
  obtain v where v: "init_session_state ss ''image_uploaded_name'' = Some v"
    using init_name_present[of ss] by auto
  with assms(3) have "v \<noteq> Name (Some (name f))" by simp
  with v assms(2) show ?thesis
    by (simp add: script_loaded[OF assms(1)] new_upload_reset_def and_then_Completed)
qed

theorem new_upload_resets_session_witness:
  "script demo_ext (demo_inputs None False False)
      [''points'' \<mapsto> Points [(1, 2)], ''image_uploaded_name'' \<mapsto> Name (Some ''dog.png''),
       ''segmented_image_rgba'' \<mapsto> Img (Some ''old''), ''is_processing'' \<mapsto> Flag False,
       ''reset_counter'' \<mapsto> Counter 3] =
    and_then
      (demo_session [] None False, St_success Model_loaded # page_head, Completed)
      (page_body demo_ext demo_predictor (demo_inputs None False False))"
proof -
  let ?ss = "[''points'' \<mapsto> Points [(1, 2)], ''image_uploaded_name'' \<mapsto> Name (Some ''dog.png''),
       ''segmented_image_rgba'' \<mapsto> Img (Some ''old''), ''is_processing'' \<mapsto> Flag False,
       ''reset_counter'' \<mapsto> Counter 3] :: string session_state"
  have i: "init_session_state ?ss = ?ss"
    by (simp add: init_session_state_def init_key_def)
  have s: "?ss(''points'' \<mapsto> Points [],
          ''segmented_image_rgba'' \<mapsto> Img None,
          ''image_uploaded_name'' \<mapsto> Name (Some (name demo_file)),
          ''is_processing'' \<mapsto> Flag False,
          ''reset_counter'' \<mapsto> Counter 0) = demo_session [] None False"
    by (rule ext) (simp add: demo_session_def demo_file_def)
  have "script demo_ext (demo_inputs None False False) ?ss =
    and_then
      ((init_session_state ?ss)
         (''points'' \<mapsto> Points [],
          ''segmented_image_rgba'' \<mapsto> Img None,
          ''image_uploaded_name'' \<mapsto> Name (Some (name demo_file)),
          ''is_processing'' \<mapsto> Flag False,
          ''reset_counter'' \<mapsto> Counter 0),
       St_success Model_loaded # page_head, Completed)
      (page_body demo_ext demo_predictor (demo_inputs None False False))"
    by (rule new_upload_resets_session[where f = demo_file])
       (simp_all add: demo_ext_def demo_inputs_def demo_file_def i)
  then show ?thesis unfolding i s .
qed

subsection \<open>Clicks\<close>

lemma click_handler_new:
  assumes "ss ''points'' = Some (Points ps)" and "coords_value inp = Some p" and "p \<notin> set ps"
  shows "click_handler inp ss =
    (ss(''points'' \<mapsto> Points (ps @ [p]), ''segmented_image_rgba'' \<mapsto> Img None,
        ''is_processing'' \<mapsto> Flag False), [], Rerun)"
  using assms by (cases p) (simp add: click_handler_def)

lemma click_handler_old:
  assumes "ss ''points'' = Some (Points ps)" and "coords_value inp = Some p" and "p \<in> set ps"
  shows "click_handler inp ss = (ss, [], Completed)"
  using assms by (cases p) (simp add: click_handler_def)

lemma script_same_upload:
  assumes "SAM ext ''sam2.1_b.pt'' = Inr predictor" and "ready ss"
    and "uploaded_file inp = Some f"
    and "ss ''image_uploaded_name'' = Some (Name (Some (name f)))"
  shows "script ext inp ss =
    and_then (ss, St_success Model_loaded # page_head, Completed) (page_body ext predictor inp)"
  by (simp add: script_loaded[OF assms(1)] ready_init[OF assms(2)] and_then_Completed
      new_upload_same[where f = f] assms(3,4))

text \<open>
  C2, amended. A click on the displayed image at a coordinate that is not yet in the
  list appends the coordinate at the end of the list, clears the result, lowers the flag
  and asks for a rerun; a click at a coordinate already in the list is not appended: the
  click handler leaves the session as it is.
\<close>

theorem new_click_appended:
  assumes "SAM ext ''sam2.1_b.pt'' = Inr predictor" and "ready ss"
    and "ss ''points'' = Some (Points ps)"
    and "uploaded_file inp = Some f"
    and "ss ''image_uploaded_name'' = Some (Name (Some (name f)))"
    and "Image_open ext (content f) = Inr im"
    and "coords_value inp = Some p"
  shows "(p \<notin> set ps \<longrightarrow>
            fst (script ext inp ss) =
              ss(''points'' \<mapsto> Points (ps @ [p]), ''segmented_image_rgba'' \<mapsto> Img None,
                 ''is_processing'' \<mapsto> Flag False) \<and>
            snd (snd (script ext inp ss)) = Rerun) \<and>
         (p \<in> set ps \<longrightarrow> click_handler inp ss = (ss, [], Completed))"
proof (intro conjI impI)
  assume new: "p \<notin> set ps"
  from assms(2) obtain c where c: "ss ''reset_counter'' = Some c" by (auto elim: readyE)
  have "image_block ext inp ss =
    (ss(''points'' \<mapsto> Points (ps @ [p]), ''segmented_image_rgba'' \<mapsto> Img None,
        ''is_processing'' \<mapsto> Flag False),
     [St_subheader Preview_heading, St_image_coordinates (convert ext im ''RGB'') (name f) c],
     Rerun)"
    by (simp add: image_block_def assms(4,6) c and_then_Completed and_then_other
        click_handler_new[where ps = ps and p = p] assms(3,7) new)
  then have "script ext inp ss =
    (ss(''points'' \<mapsto> Points (ps @ [p]), ''segmented_image_rgba'' \<mapsto> Img None,
        ''is_processing'' \<mapsto> Flag False),
     St_success Model_loaded # page_head @
     [St_subheader Preview_heading, St_image_coordinates (convert ext im ''RGB'') (name f) c],
     Rerun)"
    by (simp add: script_same_upload[OF assms(1,2,4,5)] page_body_def and_then_Completed
        and_then_other)
  then show "fst (script ext inp ss) =
      ss(''points'' \<mapsto> Points (ps @ [p]), ''segmented_image_rgba'' \<mapsto> Img None,
         ''is_processing'' \<mapsto> Flag False)"
    and "snd (snd (script ext inp ss)) = Rerun"
    by simp_all
next
  assume "p \<in> set ps"
  with assms(3,7) show "click_handler inp ss = (ss, [], Completed)"
    by (simp add: click_handler_old[where ps = ps and p = p])
qed

theorem new_click_appended_witness:
  "fst (script demo_ext (demo_inputs (Some (5, 6)) False False)
          (demo_session [(1, 2)] (Some ''old'') False)) =
     demo_session [(1, 2), (5, 6)] None False \<and>
   snd (snd (script demo_ext (demo_inputs (Some (5, 6)) False False)
          (demo_session [(1, 2)] (Some ''old'') False))) = Rerun \<and>
   click_handler (demo_inputs (Some (1, 2)) False False)
          (demo_session [(1, 2)] (Some ''old'') False) =
     (demo_session [(1, 2)] (Some ''old'') False, [], Completed)"
proof -
  let ?ss = "demo_session [(1, 2)] (Some ''old'') False"
  have r: "ready ?ss" by (simp add: ready_def demo_session_def)
  have u: "?ss(''points'' \<mapsto> Points ([(1, 2)] @ [(5, 6)]),
      ''segmented_image_rgba'' \<mapsto> Img None, ''is_processing'' \<mapsto> Flag False) =
      demo_session [(1, 2), (5, 6)] None False"
    by (rule ext) (simp add: demo_session_def)
  have a: "fst (script demo_ext (demo_inputs (Some (5, 6)) False False) ?ss) =
      ?ss(''points'' \<mapsto> Points ([(1, 2)] @ [(5, 6)]),
        ''segmented_image_rgba'' \<mapsto> Img None, ''is_processing'' \<mapsto> Flag False) \<and>
     snd (snd (script demo_ext (demo_inputs (Some (5, 6)) False False) ?ss)) = Rerun"
    using new_click_appended[of demo_ext demo_predictor ?ss "[(1, 2)]"
        "demo_inputs (Some (5, 6)) False False" demo_file "''bytes''" "(5, 6)", OF _ r]
    by (simp add: demo_ext_def demo_inputs_def demo_file_def demo_session_def)
  have b: "click_handler (demo_inputs (Some (1, 2)) False False) ?ss = (?ss, [], Completed)"
    using new_click_appended[of demo_ext demo_predictor ?ss "[(1, 2)]"
        "demo_inputs (Some (1, 2)) False False" demo_file "''bytes''" "(1, 2)", OF _ r]
    by (simp add: demo_ext_def demo_inputs_def demo_file_def demo_session_def)
  from a b show ?thesis unfolding u by simp
qed

theorem every_click_appended_counterexample:
  "run_session
     [(demo_ext, demo_inputs None False False),
      (demo_ext, demo_inputs (Some (1, 2)) False False),
      (demo_ext, demo_inputs (Some (1, 2)) False False),
      (demo_ext, demo_inputs (Some (1, 2)) False False)] ''points'' = Some (Points [(1, 2)])"
  by (simp add: script_defs demo_defs)

subsection \<open>Executions that change nothing\<close>

lemma segmentation_idle:
  "ss ''is_processing'' = Some (Flag False) \<Longrightarrow>
    segmentation ext predictor inp ss = (ss, [], Completed)"
  by (simp add: segmentation_def)

lemma script_idle:
  assumes "SAM ext ''sam2.1_b.pt'' = Inr predictor" and "ready ss"
    and "quiet inp f ss" and "ss ''is_processing'' = Some (Flag False)"
  shows "fst (script ext inp ss) = ss"
proof -
  from assms(3) have f: "uploaded_file inp = Some f"
    and n: "ss ''image_uploaded_name'' = Some (Name (Some (name f)))"
    by (simp_all add: quiet_def)
  from assms(2) obtain ps c where p: "ss ''points'' = Some (Points ps)"
    and c: "ss ''reset_counter'' = Some c"
    by (auto elim: readyE)
  show ?thesis
  proof (cases "Image_open ext (content f)")
    case (Inl e)
    then have "image_block ext inp ss = (ss, [], Crashed e)"
      by (simp add: image_block_def f)
    then show ?thesis
      by (simp add: script_same_upload[OF assms(1,2) f n] page_body_def and_then_Completed
          and_then_other)
  next
    case (Inr im)
    obtain evs oc where "show_result ext inp ss = (ss, evs, oc)"
      using fst_show_result[of ext inp ss] by (cases "show_result ext inp ss") simp
    then show ?thesis
      by (simp add: script_quiet[OF assms(1,2) p c assms(3) Inr] and_then_Completed
          segmentation_idle[where ss = ss] assms(4))
  qed
qed

text \<open>
  C8. In every session the stored points are pairwise different. A click at a
  coordinate that is already stored makes the click handler return the session as it is
  and fall through; when moreover no button is pressed and no segmentation is pending,
  the whole execution leaves the session (list, result and flag included) unchanged.
\<close>

theorem points_never_duplicated:
  fixes steps :: "(('bytes, 'img, 'arr) extern \<times> 'bytes inputs) list"
  assumes "run_session steps ''points'' = Some (Points ps)"
  shows "distinct ps \<and>
    (\<forall>inp :: 'bytes inputs. \<forall>p \<in> set ps. coords_value inp = Some p \<longrightarrow>
       click_handler inp (run_session steps) = (run_session steps, [], Completed) \<and>
       (\<forall>(ext :: ('bytes, 'img, 'arr) extern) predictor f.
          SAM ext ''sam2.1_b.pt'' = Inr predictor \<and> uploaded_file inp = Some f \<and>
          run_session steps ''image_uploaded_name'' = Some (Name (Some (name f))) \<and>
          \<not> reset_button inp \<and> \<not> run_button inp \<and>
          run_session steps ''is_processing'' = Some (Flag False) \<longrightarrow>
          fst (script ext inp (run_session steps)) = run_session steps))"
proof -
  let ?ss = "run_session steps"
  from assms have "?ss \<noteq> Map.empty" by auto
  with run_session_ready[of steps] have r: "ready ?ss" by simp
  from r assms have d: "distinct ps" by (auto elim: readyE)
  have c: "click_handler inp ?ss = (?ss, [], Completed)"
    if "p \<in> set ps" "coords_value inp = Some p" for inp :: "'bytes inputs" and p
    using that assms by (simp add: click_handler_old[where ps = ps])
  have w: "fst (script ext inp ?ss) = ?ss"
    if p: "p \<in> set ps" "coords_value inp = Some p"
      and h: "SAM ext ''sam2.1_b.pt'' = Inr predictor \<and> uploaded_file inp = Some f \<and>
        ?ss ''image_uploaded_name'' = Some (Name (Some (name f))) \<and>
        \<not> reset_button inp \<and> \<not> run_button inp \<and>
        ?ss ''is_processing'' = Some (Flag False)"
    for inp p f and ext :: "('bytes, 'img, 'arr) extern" and predictor
  proof -
    have "quiet inp f ?ss" using p h assms by (simp add: quiet_def)
    with h r show ?thesis by (blast intro: script_idle)
  qed
  show ?thesis
  proof (intro conjI allI ballI impI)
    show "distinct ps" by (rule d)
  next
    fix inp :: "'bytes inputs" and p
    assume "p \<in> set ps" "coords_value inp = Some p"
    then show "click_handler inp ?ss = (?ss, [], Completed)" by (rule c)
  next
    fix inp :: "'bytes inputs" and p f and ext :: "('bytes, 'img, 'arr) extern" and predictor
    assume "p \<in> set ps" "coords_value inp = Some p"
      and "SAM ext ''sam2.1_b.pt'' = Inr predictor \<and> uploaded_file inp = Some f \<and>
        ?ss ''image_uploaded_name'' = Some (Name (Some (name f))) \<and>
        \<not> reset_button inp \<and> \<not> run_button inp \<and>
        ?ss ''is_processing'' = Some (Flag False)"
    then show "fst (script ext inp ?ss) = ?ss" by (rule w)
  qed
qed

theorem points_never_duplicated_witness:
  "distinct [(1::int, 2::int), (5, 6)] \<and>
   click_handler (demo_inputs (Some (1, 2)) False False)
       (run_session
         [(demo_ext, demo_inputs None False False),
          (demo_ext, demo_inputs (Some (1, 2)) False False),
          (demo_ext, demo_inputs (Some (5, 6)) False False)]) =
     (demo_session [(1, 2), (5, 6)] None False, [], Completed) \<and>
   fst (script demo_ext (demo_inputs (Some (1, 2)) False False)
       (run_session
         [(demo_ext, demo_inputs None False False),
          (demo_ext, demo_inputs (Some (1, 2)) False False),
          (demo_ext, demo_inputs (Some (5, 6)) False False)])) =
     demo_session [(1, 2), (5, 6)] None False"
proof -
  let ?steps = "[(demo_ext, demo_inputs None False False),
          (demo_ext, demo_inputs (Some (1, 2)) False False),
          (demo_ext, demo_inputs (Some (5, 6)) False False)]"
  have s: "run_session ?steps = demo_session [(1, 2), (5, 6)] None False"
    by (rule ext) (simp add: script_defs demo_defs)
  have p: "run_session ?steps ''points'' = Some (Points [(1, 2), (5, 6)])"
    unfolding s by (simp add: demo_session_def)
  let ?inp = "demo_inputs (Some (1, 2)) False False"
  from points_never_duplicated[OF p]
  have d: "distinct [(1::int, 2::int), (5, 6)]"
    and a: "\<forall>inp. \<forall>p \<in> set [(1, 2), (5, 6)]. coords_value inp = Some p \<longrightarrow>
       click_handler inp (run_session ?steps) = (run_session ?steps, [], Completed) \<and>
       (\<forall>(ext :: (string, string, string) extern) predictor f.
          SAM ext ''sam2.1_b.pt'' = Inr predictor \<and> uploaded_file inp = Some f \<and>
          run_session ?steps ''image_uploaded_name'' = Some (Name (Some (name f))) \<and>
          \<not> reset_button inp \<and> \<not> run_button inp \<and>
          run_session ?steps ''is_processing'' = Some (Flag False) \<longrightarrow>
          fst (script ext inp (run_session ?steps)) = run_session ?steps)"
    by blast+
  have m: "(1, 2) \<in> set [(1::int, 2::int), (5, 6)]" by simp
  have cv: "coords_value ?inp = Some (1, 2)" by (simp add: demo_inputs_def)
  note k = a[rule_format, OF m cv]
  from k have c: "click_handler ?inp (run_session ?steps) = (run_session ?steps, [], Completed)"
    by (rule conjunct1)
  have hy: "SAM demo_ext ''sam2.1_b.pt'' = Inr demo_predictor \<and>
      uploaded_file ?inp = Some demo_file \<and>
      run_session ?steps ''image_uploaded_name'' = Some (Name (Some (name demo_file))) \<and>
      \<not> reset_button ?inp \<and> \<not> run_button ?inp \<and>
      run_session ?steps ''is_processing'' = Some (Flag False)"
    unfolding s by (simp add: demo_ext_def demo_inputs_def demo_file_def demo_session_def)
  from k[THEN conjunct2, rule_format, OF hy]
  have "fst (script demo_ext ?inp (run_session ?steps)) = run_session ?steps" .
  with d c show ?thesis unfolding s by simp
qed

subsection \<open>The segmentation attempt\<close>


lemma try_body_success:
  assumes "ss ''points'' = Some (Points ps)"
    and "predictor (np_array ext img) ps (replicate (length ps) 1) = Inr results"
    and "masks_data results = Some (t # ts)"
    and "Image_fromarray ext (cpu_numpy ext t) = Inr mask_image"
    and "paste ext (Image_new ext ''RGBA'' (image_size ext img)) img mask_image = Inr r"
  shows "try_body ext predictor img ss =
    (ss(''segmented_image_rgba'' \<mapsto> Img (Some r)),
     [Predictor_call (np_array ext img) ps (replicate (length ps) 1)], None)"
  using assms by (simp add: try_body_def cut_out_def)

lemma try_body_calls:
  assumes "ss ''points'' = Some (Points ps)"
  shows "filter is_predictor_call (fst (snd (try_body ext predictor img ss))) =
    [Predictor_call (np_array ext img) ps (replicate (length ps) 1)]"
  using assms by (simp add: try_body_def Let_def split: sum.splits option.splits)

lemma try_body_events:
  assumes "try_body ext predictor img ss = (s', tevs, x)"
  shows "St_error (Segmentation_failed e) \<notin> set tevs"
  using assms
  by (auto simp: try_body_def Let_def split: sum.splits option.splits sval.splits)

lemma try_body_stored:
  assumes "try_body ext predictor img ss = (s', tevs, x)"
    and "ss ''segmented_image_rgba'' = Some (Img None)"
    and "s' ''segmented_image_rgba'' = Some (Img (Some r))"
  shows "\<exists>ps results t ts mask_image.
    ss ''points'' = Some (Points ps) \<and>
    tevs = [Predictor_call (np_array ext img) ps (replicate (length ps) 1)] \<and>
    predictor (np_array ext img) ps (replicate (length ps) 1) = Inr results \<and>
    masks_data results = Some (t # ts) \<and>
    Image_fromarray ext (cpu_numpy ext t) = Inr mask_image \<and>
    paste ext (Image_new ext ''RGBA'' (image_size ext img)) img mask_image = Inr r"
  using assms
  by (auto simp: try_body_def cut_out_def Let_def
      split: sum.splits option.splits sval.splits list.splits)

lemma segmentation_attempt:
  assumes "ss ''is_processing'' = Some (Flag True)" and "uploaded_file inp = Some f"
    and "Image_open ext (content f) = Inr im"
    and "try_body ext predictor (convert ext im ''RGB'') ss = (s', tevs, x)"
  shows "segmentation ext predictor inp ss =
    (s'(''is_processing'' \<mapsto> Flag False), St_spinner Segmenting # tevs @ reported x, Rerun)"
  using assms by (cases x) (simp_all add: segmentation_def reported_def)

lemma script_attempt:
  assumes "SAM ext ''sam2.1_b.pt'' = Inr predictor" and "ready ss"
    and "ss ''points'' = Some (Points ps)" and "ss ''reset_counter'' = Some c"
    and "quiet inp f ss" and "Image_open ext (content f) = Inr im"
    and "ss ''is_processing'' = Some (Flag True)"
    and "try_body ext predictor (convert ext im ''RGB'') ss = (s', tevs, x)"
  shows "script ext inp ss =
    (s'(''is_processing'' \<mapsto> Flag False),
     St_success Model_loaded # page_head @
       [St_subheader Preview_heading,
        St_image_coordinates (convert ext im ''RGB'') (name f) c,
        if ps = [] then St_info Click_prompt else St_info_selected (Points ps)] @
       St_spinner Segmenting # tevs @ reported x,
     Rerun)"
proof -
  from assms(5) have f: "uploaded_file inp = Some f" by (simp add: quiet_def)
  have "segmentation ext predictor inp ss =
    (s'(''is_processing'' \<mapsto> Flag False), St_spinner Segmenting # tevs @ reported x, Rerun)"
    using assms(7) f assms(6,8) by (rule segmentation_attempt)
  then show ?thesis
    by (simp add: script_quiet[OF assms(1,2,3,4,5,6)] and_then_Completed and_then_other)
qed

lemma script_shows_result:
  assumes "SAM ext ''sam2.1_b.pt'' = Inr predictor" and "ready ss"
    and "ss ''points'' = Some (Points ps)" and "ss ''reset_counter'' = Some c"
    and "quiet inp f ss" and "Image_open ext (content f) = Inr im"
    and "ss ''is_processing'' = Some (Flag False)"
    and "ss ''segmented_image_rgba'' = Some (Img (Some r))"
  shows "script ext inp ss =
    (ss,
     St_success Model_loaded # page_head @
       [St_subheader Preview_heading,
        St_image_coordinates (convert ext im ''RGB'') (name f) c,
        if ps = [] then St_info Click_prompt else St_info_selected (Points ps),
        St_subheader Result_heading, St_image r,
        St_download_button (save ext r ''PNG'')
          (''segmented_'' @ split_dot_first (name f) @ ''.png'') ''image/png''],
     Completed)"
proof -
  from assms(5) have f: "uploaded_file inp = Some f" by (simp add: quiet_def)
  show ?thesis
    by (simp add: script_quiet[OF assms(1,2,3,4,5,6)] and_then_Completed
        segmentation_idle[where ss = ss] assms(7,8) f show_result_def)
qed


subsection \<open>From the button to the result\<close>

lemma quiet_upd:
  assumes "quiet inp f ss" and "k \<noteq> ''points''" and "k \<noteq> ''image_uploaded_name''"
  shows "quiet inp f (ss(k \<mapsto> v))"
  using assms by (cases "coords_value inp") (simp_all add: quiet_def)

lemma ready_processed:
  assumes "ready ss"
  shows "ready (ss(''segmented_image_rgba'' \<mapsto> Img r, ''is_processing'' \<mapsto> Flag False))"
  using assms by (auto elim!: readyE simp: ready_def)


lemma ready_run_pressed:
  assumes "ready ss"
  shows "ready (ss(''is_processing'' \<mapsto> Flag True, ''segmented_image_rgba'' \<mapsto> Img None))"
  using assms by (auto elim!: readyE simp: ready_def)

lemma filter_reported [simp]: "filter is_predictor_call (reported x) = []"
  by (cases x) (simp_all add: reported_def)

lemma script_run_pressed:
  assumes "SAM ext ''sam2.1_b.pt'' = Inr predictor" and "ready ss"
    and "ss ''points'' = Some (Points ps)" and "ps \<noteq> []" and "ss ''reset_counter'' = Some c"
    and "uploaded_file inp = Some f"
    and "ss ''image_uploaded_name'' = Some (Name (Some (name f)))"
    and "Image_open ext (content f) = Inr im"
    and "coords_value inp = None \<or> (\<exists>p \<in> set ps. coords_value inp = Some p)"
    and "\<not> reset_button inp" and "run_button inp"
  shows "script ext inp ss =
    (ss(''is_processing'' \<mapsto> Flag True, ''segmented_image_rgba'' \<mapsto> Img None),
     St_success Model_loaded # page_head @
       [St_subheader Preview_heading,
        St_image_coordinates (convert ext im ''RGB'') (name f) c,
        St_info_selected (Points ps)],
     Rerun)"
proof -
  have ch: "click_handler inp ss = (ss, [], Completed)"
    using assms(3,9) by (auto simp: click_handler_def)
  have pb: "points_and_buttons inp ss =
    (ss(''is_processing'' \<mapsto> Flag True, ''segmented_image_rgba'' \<mapsto> Img None),
     [St_info_selected (Points ps)], Rerun)"
    using assms(3,4,10,11) by (simp add: points_and_buttons_def and_then_Completed run_pressed_def)
  have "image_block ext inp ss =
    (ss(''is_processing'' \<mapsto> Flag True, ''segmented_image_rgba'' \<mapsto> Img None),
     [St_subheader Preview_heading,
      St_image_coordinates (convert ext im ''RGB'') (name f) c,
      St_info_selected (Points ps)], Rerun)"
    by (simp add: image_block_def assms(5,6,8) and_then_Completed ch pb)
  then show ?thesis
    by (simp add: script_same_upload[OF assms(1,2,6,7)] page_body_def and_then_Completed
        and_then_other)
qed

text \<open>
  C1. A press of the segmentation button ends the execution with a rerun and without a
  call to the model; the execution that follows calls the model exactly once, with the
  array of the uploaded image as source, the stored list of points in its order, and one
  label 1 per point.
\<close>

theorem run_button_invokes_model:
  fixes ext :: "('bytes, 'img, 'arr) extern"
  assumes "SAM ext ''sam2.1_b.pt'' = Inr predictor" and "ready ss"
    and "ss ''points'' = Some (Points ps)" and "ps \<noteq> []"
    and "uploaded_file inp = Some f"
    and "ss ''image_uploaded_name'' = Some (Name (Some (name f)))"
    and "Image_open ext (content f) = Inr im"
    and "coords_value inp = None \<or> (\<exists>p \<in> set ps. coords_value inp = Some p)"
    and "\<not> reset_button inp" and "run_button inp"
    and "quiet inp' f (fst (script ext inp ss))"
  shows "snd (snd (script ext inp ss)) = Rerun \<and>
    filter is_predictor_call (fst (snd (script ext inp ss))) = [] \<and>
    filter is_predictor_call (fst (snd (script ext inp' (fst (script ext inp ss))))) =
      [Predictor_call (np_array ext (convert ext im ''RGB'')) ps (replicate (length ps) 1)]"
proof -
  let ?s = "ss(''is_processing'' \<mapsto> Flag True, ''segmented_image_rgba'' \<mapsto> Img None)"
  let ?img = "convert ext im ''RGB''"
  from assms(2) obtain c where c: "ss ''reset_counter'' = Some c" by (auto elim: readyE)
  note first = script_run_pressed[OF assms(1,2,3,4) c assms(5,6,7,8,9,10)]
  have r: "ready ?s" using assms(2) by (rule ready_run_pressed)
  have p: "?s ''points'' = Some (Points ps)" and c': "?s ''reset_counter'' = Some c"
    and b: "?s ''is_processing'' = Some (Flag True)"
    using assms(3) c by simp_all
  from assms(11) have q: "quiet inp' f ?s" by (simp add: first)
  obtain s' tevs x where t: "try_body ext predictor ?img ?s = (s', tevs, x)"
    by (cases "try_body ext predictor ?img ?s")
  have calls: "filter is_predictor_call tevs =
      [Predictor_call (np_array ext ?img) ps (replicate (length ps) 1)]"
    using try_body_calls[where ss = ?s and ps = ps and ext = ext and predictor = predictor
        and img = ?img] p t by simp
  note second = script_attempt[OF assms(1) r p c' q assms(7) b t]
  show ?thesis
    by (simp add: first second page_head_def calls)
qed

theorem run_button_invokes_model_witness:
  "snd (snd (script demo_ext (demo_inputs (Some (1, 2)) False True)
      (demo_session [(1, 2), (5, 6)] (Some ''old'') False))) = Rerun \<and>
   filter is_predictor_call
     (fst (snd (script demo_ext (demo_inputs (Some (1, 2)) False False)
        (fst (script demo_ext (demo_inputs (Some (1, 2)) False True)
          (demo_session [(1, 2), (5, 6)] (Some ''old'') False)))))) =
     [Predictor_call ''np(bytes:RGB)'' [(1, 2), (5, 6)] [1, 1]]"
proof -
  let ?ss = "demo_session [(1, 2), (5, 6)] (Some ''old'') False"
  let ?inp = "demo_inputs (Some (1, 2)) False True"
  let ?inp' = "demo_inputs (Some (1, 2)) False False"
  have r: "ready ?ss" by (simp add: ready_def demo_session_def)
  have s: "fst (script demo_ext ?inp ?ss) = demo_session [(1, 2), (5, 6)] None True"
    by (rule ext) (simp add: script_defs demo_defs)
  have q: "quiet ?inp' demo_file (fst (script demo_ext ?inp ?ss))"
    unfolding s by (simp add: quiet_def demo_defs)
  have "snd (snd (script demo_ext ?inp ?ss)) = Rerun \<and>
    filter is_predictor_call (fst (snd (script demo_ext ?inp ?ss))) = [] \<and>
    filter is_predictor_call (fst (snd (script demo_ext ?inp' (fst (script demo_ext ?inp ?ss))))) =
      [Predictor_call (np_array demo_ext (convert demo_ext ''bytes'' ''RGB'')) [(1, 2), (5, 6)]
        (replicate (length [(1::int, 2::int), (5, 6)]) 1)]"
    by (rule run_button_invokes_model[where predictor = demo_predictor and f = demo_file, OF _ r _ _ _ _ _ _ _ _ q])
       (simp_all add: demo_defs)
  then show ?thesis by (simp add: demo_ext_def)
qed

subsection \<open>Exceptions, results and downloads\<close>



text \<open>
  C5. When the model answers with a mask, the result stored in the session is the
  paste of the uploaded image onto a new RGBA canvas of the image's size, masked by the
  first mask of the first result; the execution that follows shows exactly this image.
\<close>

theorem result_is_masked_paste:
  fixes ext :: "('bytes, 'img, 'arr) extern"
  assumes "SAM ext ''sam2.1_b.pt'' = Inr predictor" and "ready ss"
    and "ss ''points'' = Some (Points ps)"
    and "quiet inp f ss" and "Image_open ext (content f) = Inr im"
    and "ss ''is_processing'' = Some (Flag True)"
    and "predictor (np_array ext (convert ext im ''RGB'')) ps (replicate (length ps) 1)
          = Inr results"
    and "masks_data results = Some (t # ts)"
    and "Image_fromarray ext (cpu_numpy ext t) = Inr mask_image"
    and "paste ext (Image_new ext ''RGBA'' (image_size ext (convert ext im ''RGB'')))
          (convert ext im ''RGB'') mask_image = Inr r"
    and "quiet inp' f ss"
  shows "fst (script ext inp ss) =
      ss(''segmented_image_rgba'' \<mapsto> Img (Some r), ''is_processing'' \<mapsto> Flag False) \<and>
    snd (snd (script ext inp ss)) = Rerun \<and>
    filter is_st_image (fst (snd (script ext inp' (fst (script ext inp ss))))) = [St_image r]"
proof -
  let ?s = "ss(''segmented_image_rgba'' \<mapsto> Img (Some r), ''is_processing'' \<mapsto> Flag False)"
  from assms(2) obtain c where c: "ss ''reset_counter'' = Some c" by (auto elim: readyE)
  note t = try_body_success[where ss = ss and ext = ext and predictor = predictor
      and img = "convert ext im ''RGB''" and ps = ps, OF assms(3,7,8,9,10)]
  note first = script_attempt[OF assms(1,2,3) c assms(4,5,6) t]
  have r: "ready ?s" using assms(2) by (rule ready_processed)
  have p: "?s ''points'' = Some (Points ps)" and c': "?s ''reset_counter'' = Some c"
    and b: "?s ''is_processing'' = Some (Flag False)"
    and n: "?s ''segmented_image_rgba'' = Some (Img (Some r))"
    using assms(3) c by simp_all
  have q: "quiet inp' f ?s" using assms(11) by (intro quiet_upd) simp_all
  note second = script_shows_result[OF assms(1) r p c' q assms(5) b n]
  show ?thesis
    by (simp add: first second page_head_def)
qed

theorem result_is_masked_paste_witness:
  "fst (script demo_ext (demo_inputs (Some (1, 2)) False False)
      (demo_session [(1, 2)] None True)) =
      demo_session [(1, 2)] (Some ''RGBA+bytes:RGB/m0'') False \<and>
   filter is_st_image
     (fst (snd (script demo_ext (demo_inputs (Some (1, 2)) False False)
        (fst (script demo_ext (demo_inputs (Some (1, 2)) False False)
          (demo_session [(1, 2)] None True)))))) = [St_image ''RGBA+bytes:RGB/m0'']"
proof -
  let ?ss = "demo_session [(1, 2)] None True"
  let ?inp = "demo_inputs (Some (1, 2)) False False"
  have r: "ready ?ss" by (simp add: ready_def demo_session_def)
  have q: "quiet ?inp demo_file ?ss" by (simp add: quiet_def demo_defs)
  have u: "?ss(''segmented_image_rgba'' \<mapsto> Img (Some ''RGBA+bytes:RGB/m0''),
      ''is_processing'' \<mapsto> Flag False) = demo_session [(1, 2)] (Some ''RGBA+bytes:RGB/m0'') False"
    by (rule ext) (simp add: demo_session_def)
  have "fst (script demo_ext ?inp ?ss) =
      ?ss(''segmented_image_rgba'' \<mapsto> Img (Some ''RGBA+bytes:RGB/m0''),
        ''is_processing'' \<mapsto> Flag False) \<and>
    snd (snd (script demo_ext ?inp ?ss)) = Rerun \<and>
    filter is_st_image (fst (snd (script demo_ext ?inp (fst (script demo_ext ?inp ?ss))))) =
      [St_image ''RGBA+bytes:RGB/m0'']"
    by (rule result_is_masked_paste[where predictor = demo_predictor and t = "''m0''"
          and ts = "[''m1'']" and mask_image = "''m0''" and im = "''bytes''"
          and results = "[\<lparr>masks = Some \<lparr>masks_bool = True, data = Some [''m0'', ''m1'']\<rparr>\<rparr>]",
          OF _ r _ q _ _ _ _ _ _ q])
       (simp_all add: demo_defs masks_data_def)
  then show ?thesis unfolding u by blast
qed

text \<open>
  C6. After a segmentation that produced a result, the execution that follows offers
  one download: the stored RGBA image saved in the format PNG, under the name
  \<^verbatim>\<open>segmented_\<close> followed by the upload's name up to its first dot and \<^verbatim>\<open>.png\<close>, with
  the type \<^verbatim>\<open>image/png\<close>.
\<close>

theorem download_is_png_of_result:
  fixes ext :: "('bytes, 'img, 'arr) extern"
  assumes "SAM ext ''sam2.1_b.pt'' = Inr predictor" and "ready ss"
    and "ss ''points'' = Some (Points ps)"
    and "quiet inp f ss" and "Image_open ext (content f) = Inr im"
    and "ss ''is_processing'' = Some (Flag True)"
    and "predictor (np_array ext (convert ext im ''RGB'')) ps (replicate (length ps) 1)
          = Inr results"
    and "masks_data results = Some (t # ts)"
    and "Image_fromarray ext (cpu_numpy ext t) = Inr mask_image"
    and "paste ext (Image_new ext ''RGBA'' (image_size ext (convert ext im ''RGB'')))
          (convert ext im ''RGB'') mask_image = Inr r"
    and "quiet inp' f ss"
  shows "filter is_download_button
      (fst (snd (script ext inp' (fst (script ext inp ss))))) =
    [St_download_button (save ext r ''PNG'')
       (''segmented_'' @ split_dot_first (name f) @ ''.png'') ''image/png'']"
proof -
  let ?s = "ss(''segmented_image_rgba'' \<mapsto> Img (Some r), ''is_processing'' \<mapsto> Flag False)"
  from assms(2) obtain c where c: "ss ''reset_counter'' = Some c" by (auto elim: readyE)
  note t = try_body_success[where ss = ss and ext = ext and predictor = predictor
      and img = "convert ext im ''RGB''" and ps = ps, OF assms(3,7,8,9,10)]
  note first = script_attempt[OF assms(1,2,3) c assms(4,5,6) t]
  have r: "ready ?s" using assms(2) by (rule ready_processed)
  have p: "?s ''points'' = Some (Points ps)" and c': "?s ''reset_counter'' = Some c"
    and b: "?s ''is_processing'' = Some (Flag False)"
    and n: "?s ''segmented_image_rgba'' = Some (Img (Some r))"
    using assms(3) c by simp_all
  have q: "quiet inp' f ?s" using assms(11) by (intro quiet_upd) simp_all
  note second = script_shows_result[OF assms(1) r p c' q assms(5) b n]
  show ?thesis
    by (simp add: first second page_head_def)
qed

theorem download_is_png_of_result_witness:
  "filter is_download_button
     (fst (snd (script demo_ext (demo_inputs (Some (1, 2)) False False)
        (fst (script demo_ext (demo_inputs (Some (1, 2)) False False)
          (demo_session [(1, 2)] None True)))))) =
    [St_download_button ''PNG<RGBA+bytes:RGB/m0>'' ''segmented_cat.png'' ''image/png'']"
proof -
  let ?ss = "demo_session [(1, 2)] None True"
  let ?inp = "demo_inputs (Some (1, 2)) False False"
  have r: "ready ?ss" by (simp add: ready_def demo_session_def)
  have q: "quiet ?inp demo_file ?ss" by (simp add: quiet_def demo_defs)
  have "filter is_download_button
      (fst (snd (script demo_ext ?inp (fst (script demo_ext ?inp ?ss))))) =
    [St_download_button (save demo_ext ''RGBA+bytes:RGB/m0'' ''PNG'')
       (''segmented_'' @ split_dot_first (name demo_file) @ ''.png'') ''image/png'']"
    by (rule download_is_png_of_result[where predictor = demo_predictor and t = "''m0''"
          and ts = "[''m1'']" and mask_image = "''m0''" and im = "''bytes''"
          and results = "[\<lparr>masks = Some \<lparr>masks_bool = True, data = Some [''m0'', ''m1'']\<rparr>\<rparr>]",
          OF _ r _ q _ _ _ _ _ _ q])
       (simp_all add: demo_defs masks_data_def)
  then show ?thesis by (simp add: demo_defs split_dot_first_def)
qed

subsection \<open>Every execution that attempts a segmentation\<close>

lemma and_then_cases:
  assumes "and_then r f = (s', evs, oc)"
  obtains (stop) "r = (s', evs, oc)" "oc \<noteq> Completed"
  | (go) s e1 e2 where "r = (s, e1, Completed)" "f s = (s', e2, oc)" "evs = e1 @ e2"
proof -
  obtain s e1 oc1 where r: "r = (s, e1, oc1)" by (cases r)
  show ?thesis
  proof (cases "oc1 = Completed")
    case True
    obtain s2 e2 oc2 where f: "f s = (s2, e2, oc2)" by (cases "f s")
    with assms r True have "s' = s2" "evs = e1 @ e2" "oc = oc2"
      by (simp_all add: and_then_Completed)
    with r True f show ?thesis by (intro go[of s e1 e2]) simp_all
  next
    case False
    with assms r have "r = (s', evs, oc)" "oc \<noteq> Completed"
      by (simp_all add: and_then_other)
    then show ?thesis by (rule stop)
  qed
qed

lemma calm_and_then:
  assumes "\<forall>ev \<in> set (fst (snd r)). calm ev"
    and "\<And>s. \<forall>ev \<in> set (fst (snd (f s))). calm ev"
  shows "\<forall>ev \<in> set (fst (snd (and_then r f))). calm ev"
proof -
  obtain s' evs oc where a: "and_then r f = (s', evs, oc)" by (cases "and_then r f")
  then show ?thesis
  proof (cases rule: and_then_cases)
    case stop
    with assms(1) a show ?thesis by simp
  next
    case (go s e1 e2)
    with assms(1) assms(2)[of s] a show ?thesis by auto
  qed
qed

lemma calm_click_handler: "\<forall>ev \<in> set (fst (snd (click_handler inp ss))). calm ev"
  by (simp add: click_handler_def split: option.splits sval.splits prod.splits)

lemma calm_points_and_buttons:
  fixes inp :: "'bytes inputs" and ss :: "'img session_state"
  shows "\<forall>ev \<in> set (fst (snd (points_and_buttons inp ss :: ('bytes, 'img, 'arr) run))). calm ev"
proof -
  have "\<forall>ev \<in> set (fst (snd (and_then (ss, [St_info_selected v], Completed)
      (\<lambda>ss. if reset_button inp then reset_pressed ss
            else if run_button inp then run_pressed ss
            else (ss, [], Completed)) :: ('bytes, 'img, 'arr) run))). calm ev" for v
    by (intro calm_and_then)
       (simp_all add: reset_pressed_def run_pressed_def Let_def split: option.splits sum.splits)
  then show ?thesis
    by (simp add: points_and_buttons_def split: option.splits)
qed

lemma calm_image_block:
  fixes ext :: "('bytes, 'img, 'arr) extern"
  shows "\<forall>ev \<in> set (fst (snd (image_block ext inp ss))). calm ev"
proof -
  have "\<forall>ev \<in> set (fst (snd (and_then (and_then
      (ss, [St_subheader Preview_heading, St_image_coordinates i n c], Completed)
      (click_handler inp)) (points_and_buttons inp) :: ('bytes, 'img, 'arr) run))). calm ev"
    for i n c
    by (intro calm_and_then calm_click_handler calm_points_and_buttons) simp
  then show ?thesis
    by (simp add: image_block_def split: option.splits sum.splits)
qed

lemma calm_show_result: "\<forall>ev \<in> set (fst (snd (show_result ext inp ss))). calm ev"
  by (simp add: show_result_def split: option.splits sval.splits)

lemma calm_page_head: "\<forall>ev \<in> set page_head. calm ev"
  by (simp add: page_head_def)

lemma new_upload_reset_ready:
  fixes inp :: "'bytes inputs" and ss :: "'img session_state"
  assumes "ready ss"
  obtains s where
    "new_upload_reset inp ss = (s, [] :: ('bytes, 'img, 'arr) event list, Completed)" "ready s"
proof -
  from assms obtain n where "ss ''image_uploaded_name'' = Some (Name n)"
    by (auto elim: readyE)
  then have "new_upload_reset inp ss =
      (fst (new_upload_reset inp ss :: ('bytes, 'img, 'arr) run),
       [] :: ('bytes, 'img, 'arr) event list, Completed)"
    by (simp add: new_upload_reset_def split: option.splits)
  moreover have "ready (fst (new_upload_reset inp ss :: ('bytes, 'img, 'arr) run))"
    using assms by (rule ready_new_upload_reset)
  ultimately show ?thesis by (rule that)
qed

lemma segmentation_spinner:
  assumes "ready ss" and "segmentation ext predictor inp ss = (sx, ex, ocx)"
    and "St_spinner Segmenting \<in> set ex"
  obtains f im s' tevs x where
    "uploaded_file inp = Some f" "Image_open ext (content f) = Inr im"
    "ss ''is_processing'' = Some (Flag True)"
    "try_body ext predictor (convert ext im ''RGB'') ss = (s', tevs, x)"
    "sx = s'(''is_processing'' \<mapsto> Flag False)"
    "ex = St_spinner Segmenting # tevs @ reported x" "ocx = Rerun"
proof -
  from assms(1) obtain b where b: "ss ''is_processing'' = Some (Flag b)"
    by (auto elim: readyE)
  have "b \<and> uploaded_file inp \<noteq> None"
    using assms(2,3) b by (auto simp: segmentation_def split: if_splits option.splits)
  then obtain f where t: "ss ''is_processing'' = Some (Flag True)"
    and f: "uploaded_file inp = Some f"
    using b by auto
  obtain im where im: "Image_open ext (content f) = Inr im"
    using assms(2,3) t f by (cases "Image_open ext (content f)") (auto simp: segmentation_def)
  obtain s' tevs x where tb: "try_body ext predictor (convert ext im ''RGB'') ss = (s', tevs, x)"
    by (cases "try_body ext predictor (convert ext im ''RGB'') ss")
  have "segmentation ext predictor inp ss =
    (s'(''is_processing'' \<mapsto> Flag False), St_spinner Segmenting # tevs @ reported x, Rerun)"
    using t f im tb by (rule segmentation_attempt)
  with assms(2) have "sx = s'(''is_processing'' \<mapsto> Flag False)"
    "ex = St_spinner Segmenting # tevs @ reported x" "ocx = Rerun"
    by simp_all
  with f im t tb show ?thesis by (rule that)
qed

lemma attempt_cases:
  fixes ext :: "('bytes, 'img, 'arr) extern"
  assumes "ready ss" and "script ext inp ss = (ss', evs, oc)"
    and "St_spinner Segmenting \<in> set evs"
  obtains predictor f im s pre s' tevs x where
    "SAM ext ''sam2.1_b.pt'' = Inr predictor"
    "uploaded_file inp = Some f" "Image_open ext (content f) = Inr im"
    "ready s" "s ''is_processing'' = Some (Flag True)"
    "try_body ext predictor (convert ext im ''RGB'') s = (s', tevs, x)"
    "ss' = s'(''is_processing'' \<mapsto> Flag False)" "oc = Rerun"
    "evs = pre @ St_spinner Segmenting # tevs @ reported x"
    "\<forall>ev \<in> set pre. calm ev"
proof (cases "SAM ext ''sam2.1_b.pt''")
  case (Inl e)
  with assms(2,3) show ?thesis
    by (auto simp: script_def load_sam_model_def)
next
  case (Inr predictor)
  let ?H = "St_success Model_loaded # page_head :: ('bytes, 'img, 'arr) event list"
  have H: "\<forall>ev \<in> set ?H. calm ev" using calm_page_head by simp
  obtain s1 where
    n: "new_upload_reset inp ss = (s1, [] :: ('bytes, 'img, 'arr) event list, Completed)"
    and r1: "ready s1"
    using assms(1) by (rule new_upload_reset_ready)
  have "script ext inp ss = and_then (s1, ?H, Completed) (page_body ext predictor inp)"
    using n by (simp add: script_loaded[OF Inr] ready_init[OF assms(1)] and_then_Completed)
  with assms(2) obtain e2 where pb: "page_body ext predictor inp s1 = (ss', e2, oc)"
    and evs: "evs = ?H @ e2"
    by (cases "page_body ext predictor inp s1") (simp add: and_then_Completed)
  from evs assms(3) H have sp2: "St_spinner Segmenting \<in> set e2" by auto
  from pb have "and_then (image_block ext inp s1)
      (\<lambda>s. and_then (segmentation ext predictor inp s) (show_result ext inp)) = (ss', e2, oc)"
    by (simp add: page_body_def and_then_assoc)
  then show ?thesis
  proof (cases rule: and_then_cases)
    case stop
    with calm_image_block[of ext inp s1] sp2 show ?thesis by auto
  next
    case (go s2 e21 e22)
    from go(1) ready_image_block[OF r1, of ext inp] have r2: "ready s2" by simp
    from go(1) calm_image_block[of ext inp s1] have c21: "\<forall>ev \<in> set e21. calm ev" by simp
    with go(3) sp2 have sp22: "St_spinner Segmenting \<in> set e22" by auto
    have pre: "\<forall>ev \<in> set (?H @ e21). calm ev" using H c21 by auto
    from go(2) show ?thesis
    proof (cases rule: and_then_cases)
      case stop
      from r2 stop(1) sp22 show ?thesis
      proof (rule segmentation_spinner)
        fix f im s' tevs x
        assume "uploaded_file inp = Some f" "Image_open ext (content f) = Inr im"
          "s2 ''is_processing'' = Some (Flag True)"
          "try_body ext predictor (convert ext im ''RGB'') s2 = (s', tevs, x)"
          "ss' = s'(''is_processing'' \<mapsto> Flag False)"
          "e22 = St_spinner Segmenting # tevs @ reported x" "oc = Rerun"
        with Inr r2 pre evs go(3) show ?thesis
          by (intro that[of predictor f im s2 s' tevs x "?H @ e21"]) simp_all
      qed
    next
      case (go s3 e31 e32)
      from go(2) calm_show_result[of ext inp s3] have "\<forall>ev \<in> set e32. calm ev" by simp
      with go(3) sp22 have "St_spinner Segmenting \<in> set e31" by auto
      with r2 go(1) have "Completed = Rerun"
        by (rule segmentation_spinner)
      then show ?thesis by simp
    qed
  qed
qed

subsection \<open>Attempts within a session\<close>

lemma script_fresh_init:
  assumes "SAM ext ''sam2.1_b.pt'' = Inr predictor"
  shows "script ext inp Map.empty = script ext inp (init_session_state Map.empty)"
  by (simp add: script_loaded[OF assms] ready_init[OF ready_init_empty])

lemma session_attempt_cases:
  fixes ext :: "('bytes, 'img, 'arr) extern"
    and steps :: "(('bytes, 'img, 'arr) extern \<times> 'bytes inputs) list"
  assumes "script ext inp (run_session steps) = (ss', evs, oc)"
    and "St_spinner Segmenting \<in> set evs"
  obtains predictor f im s pre s' tevs x where
    "SAM ext ''sam2.1_b.pt'' = Inr predictor"
    "uploaded_file inp = Some f" "Image_open ext (content f) = Inr im"
    "ready s" "s ''is_processing'' = Some (Flag True)"
    "try_body ext predictor (convert ext im ''RGB'') s = (s', tevs, x)"
    "ss' = s'(''is_processing'' \<mapsto> Flag False)" "oc = Rerun"
    "evs = pre @ St_spinner Segmenting # tevs @ reported x"
    "\<forall>ev \<in> set pre. calm ev"
proof -
  obtain s0 where "ready s0" and "script ext inp s0 = (ss', evs, oc)"
  proof (cases "ready (run_session steps)")
    case True
    then show ?thesis using assms(1) by (rule that)
  next
    case False
    with run_session_ready[of steps] have e: "run_session steps = Map.empty" by simp
    show ?thesis
    proof (cases "SAM ext ''sam2.1_b.pt''")
      case (Inl e')
      with assms e have False
        by (auto simp: script_def load_sam_model_def)
      then show ?thesis ..
    next
      case (Inr predictor)
      with assms(1) e have "script ext inp (init_session_state Map.empty) = (ss', evs, oc)"
        by (simp add: script_fresh_init[OF Inr])
      with ready_init_empty show ?thesis by (rule that)
    qed
  qed
  then show ?thesis
    using assms(2) by (rule attempt_cases) (rule that)
qed

lemma masks_data_Some:
  assumes "masks_data results = Some d"
  obtains r0 rest m where "results = r0 # rest" "masks r0 = Some m" "masks_bool m"
    "data m = Some d"
  using assms
  by (auto simp: masks_data_def split: list.splits option.splits if_splits)

lemma reported_failure:
  "St_error (Segmentation_failed e) \<in> set (reported x) \<longleftrightarrow> x = Some e"
  by (cases x) (auto simp: reported_def)

text \<open>
  C10. In every session, an execution that attempts a segmentation (it shows the
  spinner) leaves the processing flag False, whether the attempt succeeded or raised;
  and when it reports an exception, it leaves the result None.
\<close>

theorem attempt_lowers_flag:
  fixes ext :: "('bytes, 'img, 'arr) extern"
    and steps :: "(('bytes, 'img, 'arr) extern \<times> 'bytes inputs) list"
  assumes "script ext inp (run_session steps) = (ss', evs, oc)"
    and "St_spinner Segmenting \<in> set evs"
  shows "ss' ''is_processing'' = Some (Flag False) \<and>
    ((\<exists>e. St_error (Segmentation_failed e) \<in> set evs) \<longrightarrow>
       ss' ''segmented_image_rgba'' = Some (Img None))"
  using assms
proof (cases rule: session_attempt_cases)
  case (1 predictor f im s pre s' tevs x)
  have flag: "ss' ''is_processing'' = Some (Flag False)"
    using 1(7) by simp
  have "ss' ''segmented_image_rgba'' = Some (Img None)"
    if "St_error (Segmentation_failed e) \<in> set evs" for e
  proof -
    from 1(10) have "St_error (Segmentation_failed e) \<notin> set pre" by auto
    moreover have "St_error (Segmentation_failed e) \<notin> set tevs"
      using 1(6) by (rule try_body_events)
    ultimately have
      "St_error (Segmentation_failed e) \<in> set (reported x :: ('bytes, 'img, 'arr) event list)"
      using that 1(9) by auto
    then have "x = Some e" by (simp add: reported_failure)
    with 1(6) have "s' = s" by (auto dest: try_body_raised)
    moreover from 1(4,5) have "s ''segmented_image_rgba'' = Some (Img None)"
      by (auto elim: readyE)
    ultimately show ?thesis using 1(7) by simp
  qed
  with flag show ?thesis by blast
qed

theorem attempt_lowers_flag_witness:
  "fst (script failing_ext (demo_inputs (Some (1, 2)) False False)
      (run_session
        [(demo_ext, demo_inputs None False False),
         (demo_ext, demo_inputs (Some (1, 2)) False False),
         (demo_ext, demo_inputs (Some (1, 2)) False True)])) ''is_processing''
     = Some (Flag False) \<and>
   fst (script failing_ext (demo_inputs (Some (1, 2)) False False)
      (run_session
        [(demo_ext, demo_inputs None False False),
         (demo_ext, demo_inputs (Some (1, 2)) False False),
         (demo_ext, demo_inputs (Some (1, 2)) False True)])) ''segmented_image_rgba''
     = Some (Img None)"
proof -
  let ?steps = "[(demo_ext, demo_inputs None False False),
         (demo_ext, demo_inputs (Some (1, 2)) False False),
         (demo_ext, demo_inputs (Some (1, 2)) False True)]"
  let ?run = "script failing_ext (demo_inputs (Some (1, 2)) False False) (run_session ?steps)"
  have s: "run_session ?steps = demo_session [(1, 2)] None True"
    by (rule ext) (simp add: script_defs demo_defs)
  have evs: "fst (snd ?run) =
      [St_success Model_loaded, St_set_page_config, St_title Page_title, St_markdown Usage,
       St_subheader Preview_heading,
       St_image_coordinates ''bytes:RGB'' ''cat.photo.jpg'' (Counter 0),
       St_info_selected (Points [(1, 2)]),
       St_spinner Segmenting,
       Predictor_call ''np(bytes:RGB)'' [(1, 2)] [1],
       St_error (Segmentation_failed (LibraryError ''out of memory'')),
       St_error Check_points_and_image,
       St_warning Memory_hint]"
    unfolding s by (simp add: script_defs demo_defs Let_def)
  have run: "?run = (fst ?run, fst (snd ?run), snd (snd ?run))" by simp
  have sp: "St_spinner Segmenting \<in> set (fst (snd ?run))"
    unfolding evs by simp
  have er: "\<exists>e. St_error (Segmentation_failed e) \<in> set (fst (snd ?run))"
    unfolding evs by simp
  from attempt_lowers_flag[OF run sp] er show ?thesis by blast
qed

text \<open>
  C7. In every session, the result image that a segmentation attempt leaves in the
  session was built from what the model returned for the stored points: the first mask
  of the first result, passed through \<^verbatim>\<open>cpu().numpy()\<close> and \<^verbatim>\<open>Image.fromarray\<close> and used as
  the mask of the paste; the script applies nothing else to it.
\<close>

theorem result_built_from_model_mask:
  fixes ext :: "('bytes, 'img, 'arr) extern"
    and steps :: "(('bytes, 'img, 'arr) extern \<times> 'bytes inputs) list"
  assumes "script ext inp (run_session steps) = (ss', evs, oc)"
    and "St_spinner Segmenting \<in> set evs"
    and "ss' ''segmented_image_rgba'' = Some (Img (Some r))"
  shows "\<exists>predictor f im ps results r0 rest m t ts mask_image.
    SAM ext ''sam2.1_b.pt'' = Inr predictor \<and>
    uploaded_file inp = Some f \<and> Image_open ext (content f) = Inr im \<and>
    Predictor_call (np_array ext (convert ext im ''RGB'')) ps (replicate (length ps) 1)
      \<in> set evs \<and>
    predictor (np_array ext (convert ext im ''RGB'')) ps (replicate (length ps) 1)
      = Inr results \<and>
    results = r0 # rest \<and> masks r0 = Some m \<and> data m = Some (t # ts) \<and>
    Image_fromarray ext (cpu_numpy ext t) = Inr mask_image \<and>
    paste ext (Image_new ext ''RGBA'' (image_size ext (convert ext im ''RGB'')))
      (convert ext im ''RGB'') mask_image = Inr r"
  using assms(1,2)
proof (cases rule: session_attempt_cases)
  case (1 predictor f im s pre s' tevs x)
  let ?img = "convert ext im ''RGB''"
  from 1(4,5) have none: "s ''segmented_image_rgba'' = Some (Img None)"
    by (auto elim: readyE)
  from assms(3) 1(7) have some: "s' ''segmented_image_rgba'' = Some (Img (Some r))"
    by simp
  from try_body_stored[OF 1(6) none some]
  obtain ps results t ts mask_image where
    t: "tevs = [Predictor_call (np_array ext ?img) ps (replicate (length ps) 1)]"
    and p: "predictor (np_array ext ?img) ps (replicate (length ps) 1) = Inr results"
    and d: "masks_data results = Some (t # ts)"
    and a: "Image_fromarray ext (cpu_numpy ext t) = Inr mask_image"
    and c: "paste ext (Image_new ext ''RGBA'' (image_size ext ?img)) ?img mask_image = Inr r"
    by blast
  from d obtain r0 rest m where m: "results = r0 # rest" "masks r0 = Some m"
    "data m = Some (t # ts)"
    by (rule masks_data_Some)
  have "Predictor_call (np_array ext ?img) ps (replicate (length ps) 1) \<in> set evs"
    using 1(9) t by simp
  with 1(1,2,3) p m a c show ?thesis by blast
qed

theorem result_built_from_model_mask_witness:
  "\<exists>predictor f im ps results r0 rest m t ts mask_image.
    SAM demo_ext ''sam2.1_b.pt'' = Inr predictor \<and>
    uploaded_file (demo_inputs (Some (1, 2)) False False) = Some f \<and>
    Image_open demo_ext (content f) = Inr im \<and>
    predictor (np_array demo_ext (convert demo_ext im ''RGB'')) ps (replicate (length ps) 1)
      = Inr results \<and>
    results = r0 # rest \<and> masks r0 = Some m \<and> data m = Some (t # ts) \<and>
    Image_fromarray demo_ext (cpu_numpy demo_ext t) = Inr mask_image \<and>
    paste demo_ext
      (Image_new demo_ext ''RGBA'' (image_size demo_ext (convert demo_ext im ''RGB'')))
      (convert demo_ext im ''RGB'') mask_image = Inr ''RGBA+bytes:RGB/m0''"
proof -
  let ?steps = "[(demo_ext, demo_inputs None False False),
         (demo_ext, demo_inputs (Some (1, 2)) False False),
         (demo_ext, demo_inputs (Some (1, 2)) False True)]"
  let ?run = "script demo_ext (demo_inputs (Some (1, 2)) False False) (run_session ?steps)"
  have s: "run_session ?steps = demo_session [(1, 2)] None True"
    by (rule ext) (simp add: script_defs demo_defs)
  have evs: "fst (snd ?run) =
      [St_success Model_loaded, St_set_page_config, St_title Page_title, St_markdown Usage,
       St_subheader Preview_heading,
       St_image_coordinates ''bytes:RGB'' ''cat.photo.jpg'' (Counter 0),
       St_info_selected (Points [(1, 2)]),
       St_spinner Segmenting,
       Predictor_call ''np(bytes:RGB)'' [(1, 2)] [1]]"
    unfolding s by (simp add: script_defs demo_defs Let_def)
  have res: "fst ?run ''segmented_image_rgba'' = Some (Img (Some ''RGBA+bytes:RGB/m0''))"
    unfolding s by (simp add: script_defs demo_defs Let_def)
  have run: "?run = (fst ?run, fst (snd ?run), snd (snd ?run))" by simp
  have sp: "St_spinner Segmenting \<in> set (fst (snd ?run))"
    unfolding evs by simp
  from result_built_from_model_mask[OF run sp res] show ?thesis by blast
qed

end
